theory Spec2Isabelle
  imports Main
begin

section \<open>The IR subset read and produced by cache\_read / cache\_write / reindex\<close>

text \<open>
  A shallow embedding of \<^verbatim>\<open>src/tir/schedule/primitive/cache_read_write.cc\<close>.

  TVM objects are reference counted heap nodes that the C++ compares by pointer
  (\<^verbatim>\<open>same_as\<close>, \<^verbatim>\<open>block == scope_sref_->stmt\<close>, pointer hashes). Every node kind
  whose identity the file inspects carries its address as a field here: variables,
  buffers, and the two statement kinds a structural reference can point to (loops and
  blocks). A function that allocates nodes takes the first free address as an
  argument. The mutators copy a node before changing it; the copy keeps the address
  field of its original, so the field of an output node names the input node it
  replaces (what \<^verbatim>\<open>block_reuse\<close> records), and an output node is the input object
  itself exactly when the two terms are equal.
\<close>

datatype dtype = DInt nat | DUInt nat | DFloat nat | DBool | DHandle

datatype var = Var (var_addr: nat) (name_hint: string) (var_dtype: dtype)

datatype prim_expr =
    IntImm dtype int
  | VarE var
  | Add prim_expr prim_expr
  | Sub prim_expr prim_expr
  | Mul prim_expr prim_expr
  | MinE prim_expr prim_expr
  | MaxE prim_expr prim_expr
  | BufferLoad buffer "prim_expr list"
and buffer =
    Buffer (buf_addr: nat) (data: var) (buf_dtype: dtype) (shape: "prim_expr list")
           (strides: "prim_expr list") (name: string)

datatype range = Range (rmin: prim_expr) (extent: prim_expr)

datatype iter_var_type = kDataPar | kCommReduce | kOpaque

datatype iter_var = IterVar (iv_dom: range) (iv_var: var) (iter_type: iter_var_type)

datatype buffer_region = BufferRegion (br_buffer: buffer) (region: "range list")

datatype match_buffer_region =
  MatchBufferRegion (mb_buffer: buffer) (mb_source: buffer_region)

datatype for_kind = kSerial | kParallel | kVectorized | kUnrolled

datatype stmt =
    BufferStore buffer prim_expr "prim_expr list"
  | Evaluate prim_expr
  | For (for_addr: nat) (for_var: var) (for_min: prim_expr) (for_extent: prim_expr)
        (for_kind: for_kind) (for_body: stmt)
  | SeqStmt "stmt list"
  | BlockRealize (realize_values: "prim_expr list") (realize_predicate: prim_expr)
                 (realize_block: block)
  | BlockStmt block
and block =
    Block (block_addr: nat) (iter_vars: "iter_var list") (reads: "buffer_region list")
          (writes: "buffer_region list") (block_name_hint: string) (body: stmt)
          (init: "stmt option") (alloc_buffers: "buffer list")
          (match_buffers: "match_buffer_region list")
          (annotations: "(string \<times> string) list")

text \<open>\<^verbatim>\<open>PrimExpr::dtype()\<close>: every expression node stores its type; an arithmetic node has
  the type of its operands, a load the element type of its buffer.\<close>

fun expr_dtype :: "prim_expr \<Rightarrow> dtype" where
  "expr_dtype (IntImm t _) = t"
| "expr_dtype (VarE v) = var_dtype v"
| "expr_dtype (Add a _) = expr_dtype a"
| "expr_dtype (Sub a _) = expr_dtype a"
| "expr_dtype (Mul a _) = expr_dtype a"
| "expr_dtype (MinE a _) = expr_dtype a"
| "expr_dtype (MaxE a _) = expr_dtype a"
| "expr_dtype (BufferLoad b _) = buf_dtype b"

definition make_zero :: "dtype \<Rightarrow> prim_expr" where
  "make_zero t = IntImm t 0"

definition make_const :: "dtype \<Rightarrow> int \<Rightarrow> prim_expr" where
  "make_const t v = IntImm t v"

definition const_true :: prim_expr where
  "const_true = IntImm DBool 1"

text \<open>A C++ \<^verbatim>\<open>int\<close> literal converted to an expression is a 32-bit integer immediate.\<close>

definition int_lit :: "int \<Rightarrow> prim_expr" where
  "int_lit v = IntImm (DInt 32) v"

text \<open>\<^verbatim>\<open>std::to_string\<close> on an unsigned count: its decimal digits.\<close>

function to_string :: "nat \<Rightarrow> string" where
  "to_string n =
     (if n < 10 then [char_of (48 + n)]
      else to_string (n div 10) @ [char_of (48 + n mod 10)])"
  by pat_completeness auto
termination
  by (relation "measure id") auto

declare to_string.simps [simp del]

subsection \<open>Structural references and the schedule state\<close>

text \<open>
  A \<^verbatim>\<open>StmtSRef\<close> holds a pointer to a loop or block node (null once expired), its parent
  reference and its index in the enclosing sequence. The pointer is modelled by the
  node it points to.
\<close>

datatype stmt_sref =
  StmtSRef (sref_stmt: "stmt option") (parent: "stmt_sref option") (seq_index: int)

fun stmt_addr :: "stmt \<Rightarrow> nat option" where
  "stmt_addr (For a _ _ _ _ _) = Some a"
| "stmt_addr (BlockStmt b) = Some (block_addr b)"
| "stmt_addr _ = None"

definition sref_addr :: "stmt_sref \<Rightarrow> nat option" where
  "sref_addr r = (case sref_stmt r of None \<Rightarrow> None | Some s \<Rightarrow> stmt_addr s)"

text \<open>\<^verbatim>\<open>block == sref->stmt\<close> and \<^verbatim>\<open>loop == sref->stmt\<close>: pointer comparison.\<close>

definition is_block_of :: "block \<Rightarrow> stmt_sref \<Rightarrow> bool" where
  "is_block_of b r = (sref_addr r = Some (block_addr b))"

definition is_loop_of :: "nat \<Rightarrow> stmt_sref \<Rightarrow> bool" where
  "is_loop_of a r = (sref_addr r = Some a)"

datatype IRModule = IRModule nat

datatype error =
    NotSingleWriteBlock IRModule buffer "block list"
  | NotRegionCoverError IRModule block
  | CheckFailed string
  | ExternalError string

text \<open>\<^verbatim>\<open>TVM_SREF_TO_BLOCK\<close>: the block a reference points to; an internal check fails when
  the reference is expired or points to a loop.\<close>

definition SREF_TO_BLOCK :: "stmt_sref \<Rightarrow> error + block" where
  "SREF_TO_BLOCK r =
     (case sref_stmt r of
        Some (BlockStmt b) \<Rightarrow> Inr b
      | _ \<Rightarrow> Inl (CheckFailed ''TVM_SREF_TO_BLOCK''))"

datatype DepKind = kRAW | kWAW | kWAR | kOpaqueDep

record Dependency =
  dep_src :: stmt_sref
  dep_dst :: stmt_sref
  dep_kind :: DepKind

record BlockScope =
  src2deps :: "stmt_sref \<rightharpoonup> Dependency list"
  dst2deps :: "(stmt_sref \<times> Dependency list) list"
  buffer_writers :: "nat \<rightharpoonup> stmt_sref list"
  stage_pipeline :: bool

record BlockInfo =
  scope :: BlockScope
  affine_binding :: bool
  region_cover :: bool

record ScheduleState =
  state_mod :: IRModule
  block_info :: "stmt_sref \<rightharpoonup> BlockInfo"
  stmt2ref :: "nat \<rightharpoonup> stmt_sref"

record CacheStageInfo =
  read_buffer :: buffer
  write_buffer :: buffer
  alloc :: buffer
  loc_sref :: "stmt_sref option"
  loc_pos :: int
  cache_stage :: "stmt option"
  block_reuse :: "nat \<rightharpoonup> block"
  consumer_blocks :: "stmt_sref list"

section \<open>Helper functions\<close>

text \<open>\<^verbatim>\<open>a.same_as(b)\<close> on buffers: the two references point to the same object.\<close>

definition same_as :: "buffer \<Rightarrow> buffer \<Rightarrow> bool" where
  "same_as a b = (buf_addr a = buf_addr b)"

subsection \<open>GetBufferRegionFromBuffer\<close>

text \<open>The loop keeps the last region of the buffer and checks that no earlier one was
  found: a second region of the same buffer is a failed internal check.\<close>

fun GetBufferRegionFromBuffer_loop ::
  "buffer_region list \<Rightarrow> buffer \<Rightarrow> buffer_region option \<Rightarrow> error + buffer_region option"
where
  "GetBufferRegionFromBuffer_loop [] buffer res = Inr res"
| "GetBufferRegionFromBuffer_loop (r # rs) buffer res =
     (if same_as (br_buffer r) buffer then
        (if res \<noteq> None then Inl (CheckFailed ''!res.defined()'')
         else GetBufferRegionFromBuffer_loop rs buffer (Some r))
      else GetBufferRegionFromBuffer_loop rs buffer res)"

definition GetBufferRegionFromBuffer ::
  "buffer_region list \<Rightarrow> buffer \<Rightarrow> error + buffer_region option" where
  "GetBufferRegionFromBuffer buffer_regions buffer =
     GetBufferRegionFromBuffer_loop buffer_regions buffer None"

subsection \<open>MakeCacheStage\<close>

text \<open>First loop: one loop variable \<^verbatim>\<open>ax<k>\<close> and one binding \<^verbatim>\<open>min + ax<k>\<close> per range of
  the cache region. The accumulator is the pair of vectors the C++ pushes to.\<close>

fun cache_loop_vars ::
  "range list \<Rightarrow> nat \<Rightarrow> var list \<times> prim_expr list \<Rightarrow> var list \<times> prim_expr list" where
  "cache_loop_vars [] fresh acc = acc"
| "cache_loop_vars (axis_range # rest) fresh (loop_vars, iter_values) =
     (let loop_var = Var (fresh + length loop_vars) (''ax'' @ to_string (length loop_vars))
                         (expr_dtype (extent axis_range))
      in cache_loop_vars rest fresh
           (loop_vars @ [loop_var], iter_values @ [Add (rmin axis_range) (VarE loop_var)]))"

text \<open>Second loop: one block variable \<^verbatim>\<open>v<k>\<close> per dimension of the buffer's shape, with its
  access index and its unit range.\<close>

fun cache_block_vars ::
  "prim_expr list \<Rightarrow> nat \<Rightarrow> iter_var list \<times> range list \<times> prim_expr list
     \<Rightarrow> iter_var list \<times> range list \<times> prim_expr list" where
  "cache_block_vars [] fresh acc = acc"
| "cache_block_vars (dim # rest) fresh (block_vars, access_region, access_indices) =
     (let v = Var (fresh + length access_indices) (''v'' @ to_string (length access_indices))
                  (expr_dtype dim)
      in cache_block_vars rest fresh
           (block_vars @ [IterVar (Range (make_zero (expr_dtype dim)) dim) v kDataPar],
            access_region @ [Range (VarE v) (make_const (var_dtype v) 1)],
            access_indices @ [VarE v]))"

text \<open>Third loop, \<^verbatim>\<open>for (i = loop_vars.size(); i >= 1; --i)\<close>: wraps the body in the loop of
  index \<^verbatim>\<open>i - 1\<close>, innermost first. \<^verbatim>\<open>next\<close> is the address of the loop node created.\<close>

fun cache_loops :: "nat \<Rightarrow> var list \<Rightarrow> range list \<Rightarrow> nat \<Rightarrow> stmt \<Rightarrow> stmt" where
  "cache_loops 0 loop_vars rs next inner = inner"
| "cache_loops (Suc i) loop_vars rs next inner =
     cache_loops i loop_vars rs (Suc next)
       (For next (loop_vars ! i) (int_lit 0) (extent (rs ! i)) kSerial inner)"

definition MakeCacheStage ::
  "buffer_region \<Rightarrow> CacheStageInfo \<Rightarrow> string \<Rightarrow> nat \<Rightarrow> block \<times> CacheStageInfo" where
  "MakeCacheStage cache_region info storage_scope fresh =
     (let (loop_vars, iter_values) = cache_loop_vars (region cache_region) fresh ([], []);
          fresh1 = fresh + length loop_vars;
          (block_vars, access_region, access_indices) =
             cache_block_vars (shape (br_buffer cache_region)) fresh1 ([], [], []);
          fresh2 = fresh1 + length access_indices;
          blk = Block fresh2 block_vars
                  [BufferRegion (read_buffer info) access_region]
                  [BufferRegion (write_buffer info) access_region]
                  (name (br_buffer cache_region) @ ''_'' @ storage_scope)
                  (BufferStore (write_buffer info)
                     (BufferLoad (read_buffer info) access_indices) access_indices)
                  None [] [] [];
          body0 = BlockRealize iter_values const_true blk;
          body1 = cache_loops (length loop_vars) loop_vars (region cache_region)
                    (Suc fresh2) body0
      in (blk, info\<lparr>cache_stage := Some body1\<rparr>))"



subsection \<open>InsertCacheStage\<close>

text \<open>
  Inserting into a sequence copies it and inserts before element \<^verbatim>\<open>pos\<close>; an iterator
  outside \<^verbatim>\<open>[begin, end]\<close> is undefined behaviour in the C++ and an error value here.
  A single statement is wrapped into a two element sequence, the stage first for
  position 0 and last for position 1; any other position fails \<^verbatim>\<open>ICHECK_EQ(pos, 1)\<close>.
\<close>

definition InsertCacheStage :: "stmt \<Rightarrow> int \<Rightarrow> stmt \<Rightarrow> error + stmt" where
  "InsertCacheStage s pos stage =
     (case s of
        SeqStmt seq \<Rightarrow>
          (if 0 \<le> pos \<and> pos \<le> int (length seq)
           then Inr (SeqStmt (take (nat pos) seq @ stage # drop (nat pos) seq))
           else Inl (CheckFailed ''seq.insert: position out of range''))
      | _ \<Rightarrow>
          (if pos = 0 then Inr (SeqStmt [stage, s])
           else if pos = 1 then Inr (SeqStmt [s, stage])
           else Inl (CheckFailed ''ICHECK_EQ(pos, 1)'')))"

subsection \<open>NotSingleWriteBlock and GetOnlyWriteBlock\<close>

text \<open>\<^verbatim>\<open>ScheduleStateNode::GetBlockScope\<close> (declared in the schedule state, not in this file):
  the scope stored in the block info of the reference, a failed check when there is none.\<close>

definition GetBlockScope :: "ScheduleState \<Rightarrow> stmt_sref \<Rightarrow> error + BlockScope" where
  "GetBlockScope self scope_root =
     (case block_info self scope_root of
        None \<Rightarrow> Inl (CheckFailed ''IndexError: Cannot find the corresponding BlockScope'')
      | Some bi \<Rightarrow> Inr (scope bi))"

text \<open>\<^verbatim>\<open>BlockScopeNode::GetDepsBySrc\<close> (not in this file): the dependency edges leaving a
  block, none when the block has no entry.\<close>

definition GetDepsBySrc :: "BlockScope \<Rightarrow> stmt_sref \<Rightarrow> Dependency list" where
  "GetDepsBySrc sc block_sref =
     (case src2deps sc block_sref of None \<Rightarrow> [] | Some deps \<Rightarrow> deps)"

fun srefs_to_blocks :: "stmt_sref list \<Rightarrow> error + block list" where
  "srefs_to_blocks [] = Inr []"
| "srefs_to_blocks (r # rs) =
     (case SREF_TO_BLOCK r of
        Inl e \<Rightarrow> Inl e
      | Inr b \<Rightarrow> (case srefs_to_blocks rs of Inl e \<Rightarrow> Inl e | Inr bs \<Rightarrow> Inr (b # bs)))"




subsection \<open>RelaxBufferRegion\<close>

text \<open>
  The functions of other files that the primitives call are parameters of the model,
  collected in one record. \<^verbatim>\<open>GetBlockRealize\<close> returns the realize node of a block as the
  triple of its bindings, its predicate and its block. A map keyed by variables or buffers
  hashes them by pointer and is keyed by addresses here.
\<close>

datatype IntSet = IntervalSet (min_value: "prim_expr option") (max_value: "prim_expr option")

datatype BufferIndexType = kRead | kWrite

type_synonym BlockRealizeT = "prim_expr list \<times> prim_expr \<times> block"

record Externals =
  CheckStorageScope :: "ScheduleState \<Rightarrow> string \<Rightarrow> error option"
  GetNthAccessBuffer :: "ScheduleState \<Rightarrow> block \<Rightarrow> int \<Rightarrow> BufferIndexType \<Rightarrow> error + buffer"
  GetScopeRoot :: "ScheduleState \<Rightarrow> stmt_sref \<Rightarrow> bool \<Rightarrow> error + stmt_sref"
  WithScope :: "buffer \<Rightarrow> string \<Rightarrow> buffer"
  FullRegion :: "buffer \<Rightarrow> buffer_region"
  GetBlockRealize :: "ScheduleState \<Rightarrow> stmt_sref \<Rightarrow> error + BlockRealizeT"
  GetBindings :: "BlockRealizeT \<Rightarrow> (nat \<rightharpoonup> prim_expr)"
  Substitute :: "range list \<Rightarrow> (nat \<rightharpoonup> prim_expr) \<Rightarrow> range list"
  SubstituteExpr :: "prim_expr \<Rightarrow> (nat \<rightharpoonup> prim_expr) \<Rightarrow> prim_expr"
  FromPoint :: "buffer \<Rightarrow> prim_expr list \<Rightarrow> buffer_region"
  AnalyzeRegionUpperBound ::
    "buffer_region \<Rightarrow> prim_expr \<Rightarrow> stmt_sref option \<Rightarrow> stmt_sref option \<Rightarrow> IntSet list"
  LoopDomainOfSRefTreePath :: "stmt_sref \<Rightarrow> (nat \<rightharpoonup> range)"
  IsAffineBinding :: "BlockRealizeT \<Rightarrow> (nat \<rightharpoonup> range) \<Rightarrow> bool"
  Replace :: "ScheduleState \<Rightarrow> stmt_sref \<Rightarrow> stmt \<Rightarrow> (nat \<rightharpoonup> block) \<Rightarrow> ScheduleState"

text \<open>
  Modelled from the spec: \<^verbatim>\<open>arith::IntSet::CoverRange\<close> is not in this file. The spec
  (section 4.1) says of the bounding interval of each dimension that it is
  ``clipped to \<^verbatim>\<open>[0, buffer_extent)\<close> per dimension'': the result is the intersection of
  the interval with the range passed in, an unbounded end taking the end of that range.
\<close>

definition CoverRange :: "IntSet \<Rightarrow> range \<Rightarrow> range" where
  "CoverRange s max_range =
     (let lo = (case min_value s of
                  None \<Rightarrow> rmin max_range
                | Some l \<Rightarrow> MaxE l (rmin max_range));
          hi = (case max_value s of
                  None \<Rightarrow> Add (rmin max_range) (extent max_range)
                | Some h \<Rightarrow> MinE (Add h (int_lit 1)) (Add (rmin max_range) (extent max_range)))
      in Range lo (Sub hi lo))"

text \<open>The loop over the dimensions; \<^verbatim>\<open>buffer->shape[i]\<close> is a checked array access.\<close>

function relax_loop ::
  "IntSet list \<Rightarrow> prim_expr list \<Rightarrow> nat \<Rightarrow> range list \<Rightarrow> error + range list" where
  "relax_loop int_sets shp i acc =
     (if i < length int_sets then
        (if i < length shp
         then relax_loop int_sets shp (Suc i)
                (acc @ [CoverRange (int_sets ! i) (Range (int_lit 0) (shp ! i))])
         else Inl (CheckFailed ''IndexError: indexing out of bound''))
      else Inr acc)"
  by pat_completeness auto
termination
  by (relation "measure (\<lambda>(int_sets, shp, i, acc). length int_sets - i)") auto

declare relax_loop.simps [simp del]

definition RelaxBufferRegion ::
  "Externals \<Rightarrow> ScheduleState \<Rightarrow> buffer_region \<Rightarrow> stmt_sref \<Rightarrow> stmt_sref option
     \<Rightarrow> stmt_sref option \<Rightarrow> error + buffer_region" where
  "RelaxBufferRegion ext self buffer_region block_sref dom_low_inclusive dom_high_exclusive =
     (case GetBlockRealize ext self block_sref of
        Inl e \<Rightarrow> Inl e
      | Inr realize \<Rightarrow>
          (let binding = GetBindings ext realize;
               buffer = br_buffer buffer_region;
               subst_region = BufferRegion buffer (Substitute ext (region buffer_region) binding);
               int_sets = AnalyzeRegionUpperBound ext subst_region (fst (snd realize))
                            dom_low_inclusive dom_high_exclusive
           in if length (region buffer_region) \<noteq> length int_sets
              then Inl (CheckFailed ''ICHECK_EQ(buffer_region->region.size(), int_sets.size())'')
              else (case relax_loop int_sets (shape buffer) 0 [] of
                      Inl e \<Rightarrow> Inl e
                    | Inr rs \<Rightarrow> Inr (BufferRegion buffer rs))))"

text \<open>The meaning of index expressions, to state containment of regions: ideal integers,
  variables and buffer contents read from an environment.\<close>

type_synonym env = "(var \<Rightarrow> int) \<times> (buffer \<Rightarrow> int list \<Rightarrow> int)"

fun eval :: "env \<Rightarrow> prim_expr \<Rightarrow> int" where
  "eval \<sigma> (IntImm t v) = v"
| "eval \<sigma> (VarE v) = fst \<sigma> v"
| "eval \<sigma> (Add a b) = eval \<sigma> a + eval \<sigma> b"
| "eval \<sigma> (Sub a b) = eval \<sigma> a - eval \<sigma> b"
| "eval \<sigma> (Mul a b) = eval \<sigma> a * eval \<sigma> b"
| "eval \<sigma> (MinE a b) = min (eval \<sigma> a) (eval \<sigma> b)"
| "eval \<sigma> (MaxE a b) = max (eval \<sigma> a) (eval \<sigma> b)"
| "eval \<sigma> (BufferLoad b idx) = snd \<sigma> b (map (eval \<sigma>) idx)"

definition range_set :: "env \<Rightarrow> range \<Rightarrow> int set" where
  "range_set \<sigma> r = {eval \<sigma> (rmin r) ..< eval \<sigma> (rmin r) + eval \<sigma> (extent r)}"

definition int_set :: "env \<Rightarrow> IntSet \<Rightarrow> int set" where
  "int_set \<sigma> s =
     {x. (case min_value s of None \<Rightarrow> True | Some l \<Rightarrow> eval \<sigma> l \<le> x)
       \<and> (case max_value s of None \<Rightarrow> True | Some h \<Rightarrow> x \<le> eval \<sigma> h)}"


subsection \<open>CacheLocDetector\<close>

text \<open>The mutable members of the visitor, and its constant ones.\<close>

record Detector =
  visited_block :: bool
  visited_related :: bool
  d_loc_sref :: "stmt_sref option"
  d_loc_pos :: int

record DetectorArgs =
  d_self :: ScheduleState
  d_block_sref :: stmt_sref
  d_scope_sref :: stmt_sref
  d_related_blocks :: "stmt_sref list"

text \<open>\<^verbatim>\<open>self_->stmt2ref.at(node)\<close> throws when the node has no reference.\<close>

definition stmt2ref_at :: "ScheduleState \<Rightarrow> nat \<Rightarrow> error + stmt_sref" where
  "stmt2ref_at self a =
     (case stmt2ref self a of
        None \<Rightarrow> Inl (CheckFailed ''std::out_of_range: stmt2ref.at'')
      | Some r \<Rightarrow> Inr r)"

text \<open>
  The visitor. Expressions are not visited (the statement visitor ignores them), so a
  store and an evaluate change nothing; a loop visits its body and a realize its block;
  the default visit of a block, used for the scope block only, visits the
  initialisation statement and then the body.
\<close>

fun Detector_VisitStmt :: "DetectorArgs \<Rightarrow> stmt \<Rightarrow> Detector \<Rightarrow> error + Detector"
  and Detector_VisitSeq ::
    "DetectorArgs \<Rightarrow> stmt list \<Rightarrow> nat \<Rightarrow> bool \<Rightarrow> Detector \<Rightarrow> error + Detector"
  and Detector_VisitBlock :: "DetectorArgs \<Rightarrow> block \<Rightarrow> Detector \<Rightarrow> error + Detector"
where
  "Detector_VisitStmt c (BufferStore b v idx) d = Inr d"
| "Detector_VisitStmt c (Evaluate e) d = Inr d"
| "Detector_VisitStmt c (For a v mn ex k b) d =
     (case Detector_VisitStmt c b d of
        Inl e \<Rightarrow> Inl e
      | Inr d1 \<Rightarrow>
          (if visited_block d1 \<and> visited_related d1 \<and> d_loc_sref d1 = None
              \<and> d_loc_pos d1 \<noteq> -1
           then (case stmt2ref_at (d_self c) a of
                   Inl e \<Rightarrow> Inl e
                 | Inr r \<Rightarrow> Inr (d1\<lparr>d_loc_sref := Some r\<rparr>))
           else Inr d1))"
| "Detector_VisitStmt c (SeqStmt seq) d =
     Detector_VisitSeq c seq 0 (visited_block d) (d\<lparr>visited_block := False\<rparr>)"
| "Detector_VisitStmt c (BlockRealize vs p b) d = Detector_VisitBlock c b d"
| "Detector_VisitStmt c (BlockStmt b) d = Detector_VisitBlock c b d"
| "Detector_VisitSeq c [] i previous_visited_block d = Inr d"
| "Detector_VisitSeq c (s # rest) i previous_visited_block d =
     (if d_loc_pos d \<noteq> -1 then Inr d
      else (case Detector_VisitStmt c s d of
              Inl e \<Rightarrow> Inl e
            | Inr d1 \<Rightarrow>
                (if visited_block d1 \<and> visited_related d1 \<and> d_loc_pos d1 = -1
                 then Inr (d1\<lparr>d_loc_pos := int i\<rparr>)
                 else if visited_related d1
                 then Inr (d1\<lparr>visited_block := (visited_block d1 \<or> previous_visited_block)\<rparr>)
                 else Detector_VisitSeq c rest (Suc i) previous_visited_block d1)))"
| "Detector_VisitBlock c (Block a ivs rds wrs nm bd ini allocs mbs ann) d =
     (let blk = Block a ivs rds wrs nm bd ini allocs mbs ann in
      if is_block_of blk (d_scope_sref c) then
        (case (case ini of
                 None \<Rightarrow> Inr d
               | Some s \<Rightarrow> Detector_VisitStmt c s d) of
           Inl e \<Rightarrow> Inl e
         | Inr d0 \<Rightarrow>
             (case Detector_VisitStmt c bd d0 of
                Inl e \<Rightarrow> Inl e
              | Inr d1 \<Rightarrow>
                  (if visited_related d1 \<and> d_loc_sref d1 = None then
                     (case stmt2ref_at (d_self c) a of
                        Inl e \<Rightarrow> Inl e
                      | Inr r \<Rightarrow>
                          (let d2 = d1\<lparr>d_loc_sref := Some r\<rparr>
                           in if visited_block d2 = False \<and> d_loc_pos d2 = -1
                              then Inr (d2\<lparr>d_loc_pos := 0\<rparr>)
                              else Inr d2))
                   else Inr d1)))
      else if is_block_of blk (d_block_sref c) then Inr (d\<lparr>visited_block := True\<rparr>)
      else if list_ex (is_block_of blk) (d_related_blocks c)
      then Inr (d\<lparr>visited_related := True\<rparr>)
      else Inr d)"

text \<open>
  \<^verbatim>\<open>CacheLocDetector::Detect\<close>. The related blocks are the given consumers, or else the
  destinations of the read-after-write edges leaving the writer. With related blocks the
  visitor runs on the scope block; without, the site is the scope block and the position
  is the length of its body sequence, or 1 when the body is not a sequence.
\<close>

definition Detect ::
  "ScheduleState \<Rightarrow> stmt_sref \<Rightarrow> stmt_sref \<Rightarrow> CacheStageInfo \<Rightarrow> error + CacheStageInfo" where
  "Detect self block_sref scope_sref info =
     (case (if consumer_blocks info \<noteq> [] then Inr (consumer_blocks info)
            else (case GetBlockScope self scope_sref of
                    Inl e \<Rightarrow> Inl e
                  | Inr sc \<Rightarrow>
                      Inr (map dep_dst
                             (filter (\<lambda>def. dep_kind def = kRAW) (GetDepsBySrc sc block_sref))))) of
        Inl e \<Rightarrow> Inl e
      | Inr related_blocks \<Rightarrow>
          (if related_blocks \<noteq> [] then
             (case sref_stmt scope_sref of
                None \<Rightarrow> Inl (CheckFailed ''null scope_sref->stmt'')
              | Some root \<Rightarrow>
                  (case Detector_VisitStmt
                          \<lparr>d_self = self, d_block_sref = block_sref, d_scope_sref = scope_sref,
                           d_related_blocks = related_blocks\<rparr>
                          root
                          \<lparr>visited_block = False, visited_related = False,
                           d_loc_sref = None, d_loc_pos = -1\<rparr> of
                     Inl e \<Rightarrow> Inl e
                   | Inr detector \<Rightarrow>
                       Inr (info\<lparr>loc_sref := d_loc_sref detector,
                                 loc_pos := d_loc_pos detector\<rparr>)))
           else
             (case sref_stmt scope_sref of
                Some (BlockStmt scope_block) \<Rightarrow>
                  Inr (info\<lparr>loc_sref := Some scope_sref,
                            loc_pos := (case body scope_block of
                                          SeqStmt seq \<Rightarrow> int (length seq)
                                        | _ \<Rightarrow> 1)\<rparr>)
              | _ \<Rightarrow> Inl (CheckFailed ''scope_sref->StmtAs<BlockNode>() is null''))))"


subsection \<open>The default traversal of the mutators\<close>

text \<open>
  The rewriters derive from the generic statement and expression mutator, which is not in
  this file. Its default visit rebuilds a node from its visited children, in this order:
  a store visits its value and its indices; a loop its minimum, its extent and its body;
  a sequence its elements in order; a realize its bindings, its predicate and its block;
  a block the domains of its iteration variables, the ranges of its read, write and
  match-buffer regions, its initialisation statement and its body. The buffer of a
  load, a store or a region is not a child. The functions below apply an expression
  visitor to the expressions of the block signature.
\<close>

definition Mutate_range :: "(prim_expr \<Rightarrow> prim_expr) \<Rightarrow> range \<Rightarrow> range" where
  "Mutate_range f r = Range (f (rmin r)) (f (extent r))"

definition Mutate_iter_var :: "(prim_expr \<Rightarrow> prim_expr) \<Rightarrow> iter_var \<Rightarrow> iter_var" where
  "Mutate_iter_var f iv = IterVar (Mutate_range f (iv_dom iv)) (iv_var iv) (iter_type iv)"

definition Mutate_buffer_region ::
  "(prim_expr \<Rightarrow> prim_expr) \<Rightarrow> buffer_region \<Rightarrow> buffer_region" where
  "Mutate_buffer_region f r = BufferRegion (br_buffer r) (map (Mutate_range f) (region r))"

definition Mutate_match_buffer ::
  "(prim_expr \<Rightarrow> prim_expr) \<Rightarrow> match_buffer_region \<Rightarrow> match_buffer_region" where
  "Mutate_match_buffer f m =
     MatchBufferRegion (mb_buffer m) (Mutate_buffer_region f (mb_source m))"

text \<open>
  Modelled from the spec: \<^verbatim>\<open>ReplaceBuffer\<close> (on regions and on match buffers) is declared in
  the schedule utilities, not in this file. The spec (section 4.5) has the rewriters
  ``update declared read/write/match-buffer lists by substituting the old buffer for the
  new one'': every region of the source buffer becomes the same region of the target
  buffer. The array that comes back is the array passed in when no element was replaced,
  which is what the \<^verbatim>\<open>same_as\<close> tests of the rewriters ask.
\<close>

definition ReplaceBuffer ::
  "buffer_region list \<Rightarrow> buffer \<Rightarrow> buffer \<Rightarrow> buffer_region list" where
  "ReplaceBuffer regions source target =
     map (\<lambda>r. if same_as (br_buffer r) source then BufferRegion target (region r) else r)
       regions"

definition ReplaceBuffer_changed :: "buffer_region list \<Rightarrow> buffer \<Rightarrow> bool" where
  "ReplaceBuffer_changed regions source = list_ex (\<lambda>r. same_as (br_buffer r) source) regions"

definition ReplaceMatchBuffer ::
  "match_buffer_region list \<Rightarrow> buffer \<Rightarrow> buffer \<Rightarrow> match_buffer_region list" where
  "ReplaceMatchBuffer mbs source target =
     map (\<lambda>m. if same_as (br_buffer (mb_source m)) source
              then MatchBufferRegion (mb_buffer m) (BufferRegion target (region (mb_source m)))
              else m)
       mbs"

definition ReplaceMatchBuffer_changed :: "match_buffer_region list \<Rightarrow> buffer \<Rightarrow> bool" where
  "ReplaceMatchBuffer_changed mbs source =
     list_ex (\<lambda>m. same_as (br_buffer (mb_source m)) source) mbs"

text \<open>\<^verbatim>\<open>info_->loc_sref->stmt\<close> dereferences the site of the plan; \<^verbatim>\<open>info_->cache_stage\<close> is
  the stage to insert. Both are set before a rewriter runs; a null one is an error value.\<close>

definition loc_is :: "CacheStageInfo \<Rightarrow> nat \<Rightarrow> error + bool" where
  "loc_is info a =
     (case loc_sref info of
        None \<Rightarrow> Inl (CheckFailed ''null info->loc_sref'')
      | Some r \<Rightarrow> Inr (sref_addr r = Some a))"

definition InsertStage :: "CacheStageInfo \<Rightarrow> stmt \<Rightarrow> error + stmt" where
  "InsertStage info s =
     (case cache_stage info of
        None \<Rightarrow> Inl (CheckFailed ''null info->cache_stage'')
      | Some stage \<Rightarrow> InsertCacheStage s (loc_pos info) stage)"

subsection \<open>CacheReadRewriter\<close>

text \<open>
  The expression visitor: a load of the read buffer in a consuming block becomes a load
  of the write buffer with the same indices, which are not visited; the data variable of
  the read buffer becomes that of the write buffer; everything else is rebuilt from its
  visited children.
\<close>

fun CacheReadRewriter_VisitExpr ::
  "CacheStageInfo \<Rightarrow> bool \<Rightarrow> prim_expr \<Rightarrow> prim_expr" where
  "CacheReadRewriter_VisitExpr info consumes (IntImm t v) = IntImm t v"
| "CacheReadRewriter_VisitExpr info consumes (VarE v) =
     (if var_addr v = var_addr (data (read_buffer info)) then VarE (data (write_buffer info))
      else VarE v)"
| "CacheReadRewriter_VisitExpr info consumes (Add a b) =
     Add (CacheReadRewriter_VisitExpr info consumes a) (CacheReadRewriter_VisitExpr info consumes b)"
| "CacheReadRewriter_VisitExpr info consumes (Sub a b) =
     Sub (CacheReadRewriter_VisitExpr info consumes a) (CacheReadRewriter_VisitExpr info consumes b)"
| "CacheReadRewriter_VisitExpr info consumes (Mul a b) =
     Mul (CacheReadRewriter_VisitExpr info consumes a) (CacheReadRewriter_VisitExpr info consumes b)"
| "CacheReadRewriter_VisitExpr info consumes (MinE a b) =
     MinE (CacheReadRewriter_VisitExpr info consumes a) (CacheReadRewriter_VisitExpr info consumes b)"
| "CacheReadRewriter_VisitExpr info consumes (MaxE a b) =
     MaxE (CacheReadRewriter_VisitExpr info consumes a) (CacheReadRewriter_VisitExpr info consumes b)"
| "CacheReadRewriter_VisitExpr info consumes (BufferLoad b idx) =
     (if same_as b (read_buffer info) \<and> consumes then BufferLoad (write_buffer info) idx
      else BufferLoad b (map (CacheReadRewriter_VisitExpr info consumes) idx))"

text \<open>The loop over the given consumers: every reference is converted to its block (a
  checked conversion), and the block visited is a consumer when it is one of them, or
  when none is given.\<close>

fun is_consumer_loop :: "block \<Rightarrow> stmt_sref list \<Rightarrow> bool \<Rightarrow> error + bool" where
  "is_consumer_loop old_stmt [] is_consumer = Inr is_consumer"
| "is_consumer_loop old_stmt (consumer_sref # rest) is_consumer =
     (case SREF_TO_BLOCK consumer_sref of
        Inl e \<Rightarrow> Inl e
      | Inr consumer_block \<Rightarrow>
          is_consumer_loop old_stmt rest
            (if block_addr old_stmt = block_addr consumer_block then True else is_consumer))"

text \<open>The mutable members: \<^verbatim>\<open>current_block_consumes\<close>, which every block visit sets and
  none restores, and the \<^verbatim>\<open>block_reuse\<close> map of the plan.\<close>

type_synonym rd_state = "bool \<times> (nat \<rightharpoonup> block)"

text \<open>What the block visit does after the default visit has rebuilt the block: insert the
  stage when the block is the site, then allocate the buffer when the block is the scope
  block, or else retarget the declared reads and match buffers of a consumer.\<close>

definition CacheReadRewriter_finish ::
  "stmt_sref \<Rightarrow> CacheStageInfo \<Rightarrow> block \<Rightarrow> bool \<Rightarrow> block \<Rightarrow> error + block" where
  "CacheReadRewriter_finish scope_sref info blk is_consumer stmt0 =
     (case loc_is info (block_addr blk) of
        Inl e \<Rightarrow> Inl e
      | Inr at_loc \<Rightarrow>
          (case (if at_loc
                 then (case InsertStage info (body stmt0) of
                         Inl e \<Rightarrow> Inl e
                       | Inr b \<Rightarrow>
                           Inr (Block (block_addr stmt0) (iter_vars stmt0) (reads stmt0)
                                  (writes stmt0) (block_name_hint stmt0) b (init stmt0)
                                  (alloc_buffers stmt0) (match_buffers stmt0)
                                  (annotations stmt0)))
                 else Inr stmt0) of
             Inl e \<Rightarrow> Inl e
           | Inr stmt1 \<Rightarrow>
               (if is_block_of blk scope_sref then
                  Inr (Block (block_addr stmt1) (iter_vars stmt1) (reads stmt1) (writes stmt1)
                         (block_name_hint stmt1) (body stmt1) (init stmt1)
                         (alloc_buffers stmt1 @ [alloc info]) (match_buffers stmt1)
                         (annotations stmt1))
                else if is_consumer
                   \<and> (ReplaceBuffer_changed (reads blk) (read_buffer info)
                      \<or> ReplaceMatchBuffer_changed (match_buffers blk) (read_buffer info))
                then
                  Inr (Block (block_addr stmt1) (iter_vars stmt1)
                         (ReplaceBuffer (reads blk) (read_buffer info) (write_buffer info))
                         (writes stmt1) (block_name_hint stmt1) (body stmt1) (init stmt1)
                         (alloc_buffers stmt1)
                         (ReplaceMatchBuffer (match_buffers blk) (read_buffer info)
                            (write_buffer info))
                         (annotations stmt1))
                else Inr stmt1)))"

fun CacheReadRewriter_VisitStmt ::
    "stmt_sref \<Rightarrow> CacheStageInfo \<Rightarrow> stmt \<Rightarrow> rd_state \<Rightarrow> error + stmt \<times> rd_state"
  and CacheReadRewriter_VisitSeq ::
    "stmt_sref \<Rightarrow> CacheStageInfo \<Rightarrow> stmt list \<Rightarrow> rd_state \<Rightarrow> error + stmt list \<times> rd_state"
  and CacheReadRewriter_VisitBlock ::
    "stmt_sref \<Rightarrow> CacheStageInfo \<Rightarrow> block \<Rightarrow> rd_state \<Rightarrow> error + block \<times> rd_state"
where
  "CacheReadRewriter_VisitStmt sc info (BufferStore b v idx) st =
     Inr (BufferStore b (CacheReadRewriter_VisitExpr info (fst st) v)
            (map (CacheReadRewriter_VisitExpr info (fst st)) idx), st)"
| "CacheReadRewriter_VisitStmt sc info (Evaluate e) st =
     Inr (Evaluate (CacheReadRewriter_VisitExpr info (fst st) e), st)"
| "CacheReadRewriter_VisitStmt sc info (For a v mn ex k b) st =
     (let mn1 = CacheReadRewriter_VisitExpr info (fst st) mn;
          ex1 = CacheReadRewriter_VisitExpr info (fst st) ex
      in case CacheReadRewriter_VisitStmt sc info b st of
           Inl e \<Rightarrow> Inl e
         | Inr (b1, st1) \<Rightarrow>
             (case loc_is info a of
                Inl e \<Rightarrow> Inl e
              | Inr at_loc \<Rightarrow>
                  (if at_loc
                   then (case InsertStage info b1 of
                           Inl e \<Rightarrow> Inl e
                         | Inr b2 \<Rightarrow> Inr (For a v mn1 ex1 k b2, st1))
                   else Inr (For a v mn1 ex1 k b1, st1))))"
| "CacheReadRewriter_VisitStmt sc info (SeqStmt seq) st =
     (case CacheReadRewriter_VisitSeq sc info seq st of
        Inl e \<Rightarrow> Inl e
      | Inr (seq1, st1) \<Rightarrow> Inr (SeqStmt seq1, st1))"
| "CacheReadRewriter_VisitStmt sc info (BlockRealize vs p blk) st =
     (let vs1 = map (CacheReadRewriter_VisitExpr info (fst st)) vs;
          p1 = CacheReadRewriter_VisitExpr info (fst st) p
      in case CacheReadRewriter_VisitBlock sc info blk st of
           Inl e \<Rightarrow> Inl e
         | Inr (blk1, st1) \<Rightarrow> Inr (BlockRealize vs1 p1 blk1, st1))"
| "CacheReadRewriter_VisitStmt sc info (BlockStmt blk) st =
     (case CacheReadRewriter_VisitBlock sc info blk st of
        Inl e \<Rightarrow> Inl e
      | Inr (blk1, st1) \<Rightarrow> Inr (BlockStmt blk1, st1))"
| "CacheReadRewriter_VisitSeq sc info [] st = Inr ([], st)"
| "CacheReadRewriter_VisitSeq sc info (s # rest) st =
     (case CacheReadRewriter_VisitStmt sc info s st of
        Inl e \<Rightarrow> Inl e
      | Inr (s1, st1) \<Rightarrow>
          (case CacheReadRewriter_VisitSeq sc info rest st1 of
             Inl e \<Rightarrow> Inl e
           | Inr (rest1, st2) \<Rightarrow> Inr (s1 # rest1, st2)))"
| "CacheReadRewriter_VisitBlock sc info (Block a ivs rds wrs nm bd ini allocs mbs ann) st =
     (let blk = Block a ivs rds wrs nm bd ini allocs mbs ann in
      case is_consumer_loop blk (consumer_blocks info) (consumer_blocks info = []) of
        Inl e \<Rightarrow> Inl e
      | Inr is_consumer \<Rightarrow>
          (case (if \<not> is_block_of blk sc
                 then (case GetBufferRegionFromBuffer wrs (read_buffer info) of
                         Inl e \<Rightarrow> Inl e
                       | Inr r \<Rightarrow> Inr (r \<noteq> None))
                 else Inr False) of
             Inl e \<Rightarrow> Inl e
           | Inr is_producer \<Rightarrow>
               (if is_producer then Inr (blk, (is_consumer, snd st))
                else
                  (let f = CacheReadRewriter_VisitExpr info is_consumer;
                       ivs1 = map (Mutate_iter_var f) ivs;
                       rds1 = map (Mutate_buffer_region f) rds;
                       wrs1 = map (Mutate_buffer_region f) wrs;
                       mbs1 = map (Mutate_match_buffer f) mbs
                   in case (case ini of
                              None \<Rightarrow> Inr (None, (is_consumer, snd st))
                            | Some s \<Rightarrow>
                                (case CacheReadRewriter_VisitStmt sc info s (is_consumer, snd st) of
                                   Inl e \<Rightarrow> Inl e
                                 | Inr (s1, st1) \<Rightarrow> Inr (Some s1, st1))) of
                        Inl e \<Rightarrow> Inl e
                      | Inr (ini1, st1) \<Rightarrow>
                          (case CacheReadRewriter_VisitStmt sc info bd st1 of
                             Inl e \<Rightarrow> Inl e
                           | Inr (bd1, st2) \<Rightarrow>
                               (case CacheReadRewriter_finish sc info blk is_consumer
                                       (Block a ivs1 rds1 wrs1 nm bd1 ini1 allocs mbs1 ann) of
                                  Inl e \<Rightarrow> Inl e
                                | Inr stmt1 \<Rightarrow>
                                    Inr (stmt1, (fst st2, (snd st2)(a \<mapsto> stmt1)))))))))"

definition CacheReadRewriter_Rewrite ::
  "stmt_sref \<Rightarrow> CacheStageInfo \<Rightarrow> error + stmt \<times> CacheStageInfo" where
  "CacheReadRewriter_Rewrite scope_sref info =
     (case sref_stmt scope_sref of
        None \<Rightarrow> Inl (CheckFailed ''null scope_sref->stmt'')
      | Some root \<Rightarrow>
          (case CacheReadRewriter_VisitStmt scope_sref info root (False, block_reuse info) of
             Inl e \<Rightarrow> Inl e
           | Inr (new_scope, st) \<Rightarrow> Inr (new_scope, info\<lparr>block_reuse := snd st\<rparr>)))"


subsection \<open>CacheWriteRewriter\<close>






subsection \<open>MakeReIndexStage and CreateReindexBuffer\<close>







section \<open>The primitives\<close>

subsection \<open>CheckRegionCover and CalculateAffineFlag\<close>





subsection \<open>CacheRead\<close>



subsection \<open>CacheWrite\<close>




section \<open>An example scope\<close>

text \<open>
  The scenario of the spec: a loop \<^verbatim>\<open>i\<close> over \<^verbatim>\<open>[0, 16)\<close> whose body is the sequence of a
  block \<^verbatim>\<open>C\<close> writing \<^verbatim>\<open>B[vi]\<close> from the input \<^verbatim>\<open>A\<close> and a block \<^verbatim>\<open>D\<close> reading \<^verbatim>\<open>B[vj]\<close>,
  under a root block. It is the concrete input of the instances below.
\<close>

definition i32 :: dtype where "i32 = DInt 32"

definition ex_A :: buffer where
  "ex_A = Buffer 1 (Var 2 ''A'' DHandle) (DFloat 32) [int_lit 16] [] ''A''"

definition ex_B :: buffer where
  "ex_B = Buffer 3 (Var 4 ''B'' DHandle) (DFloat 32) [int_lit 16] [] ''B''"

definition ex_E :: buffer where
  "ex_E = Buffer 5 (Var 6 ''E'' DHandle) (DFloat 32) [int_lit 16] [] ''E''"

definition ex_B_local :: buffer where
  "ex_B_local = Buffer 7 (Var 8 ''B_local'' DHandle) (DFloat 32) [int_lit 16] [] ''B_local''"

definition ex_region :: buffer_region where
  "ex_region = BufferRegion ex_B [Range (int_lit 0) (int_lit 16)]"

definition ex_info :: CacheStageInfo where
  "ex_info = \<lparr>read_buffer = ex_B_local, write_buffer = ex_B, alloc = ex_B_local,
              loc_sref = None, loc_pos = 0, cache_stage = None, block_reuse = Map.empty,
              consumer_blocks = []\<rparr>"

definition ex_i :: var where "ex_i = Var 10 ''i'' i32"

definition ex_vi :: var where "ex_vi = Var 11 ''vi'' i32"

definition ex_vj :: var where "ex_vj = Var 12 ''vj'' i32"

definition ex_C :: block where
  "ex_C = Block 20 [IterVar (Range (int_lit 0) (int_lit 16)) ex_vi kDataPar]
            [BufferRegion ex_A [Range (VarE ex_vi) (int_lit 1)]]
            [BufferRegion ex_B [Range (VarE ex_vi) (int_lit 1)]]
            ''C''
            (BufferStore ex_B (Mul (BufferLoad ex_A [VarE ex_vi]) (int_lit 2)) [VarE ex_vi])
            None [] [] []"

definition ex_D :: block where
  "ex_D = Block 21 [IterVar (Range (int_lit 0) (int_lit 16)) ex_vj kDataPar]
            [BufferRegion ex_B [Range (VarE ex_vj) (int_lit 1)]]
            [BufferRegion ex_E [Range (VarE ex_vj) (int_lit 1)]]
            ''D''
            (BufferStore ex_E (Add (BufferLoad ex_B [VarE ex_vj]) (int_lit 1)) [VarE ex_vj])
            None [] [] []"

definition ex_loop :: stmt where
  "ex_loop = For 30 ex_i (int_lit 0) (int_lit 16) kSerial
               (SeqStmt [BlockRealize [VarE ex_i] const_true ex_C,
                         BlockRealize [VarE ex_i] const_true ex_D])"

definition ex_root :: block where
  "ex_root = Block 40 [] [] [] ''root'' ex_loop None [ex_B] [] []"

definition ex_root_sref :: stmt_sref where
  "ex_root_sref = StmtSRef (Some (BlockStmt ex_root)) None (-1)"

definition ex_loop_sref :: stmt_sref where
  "ex_loop_sref = StmtSRef (Some ex_loop) (Some ex_root_sref) (-1)"

definition ex_C_sref :: stmt_sref where
  "ex_C_sref = StmtSRef (Some (BlockStmt ex_C)) (Some ex_loop_sref) 0"

definition ex_D_sref :: stmt_sref where
  "ex_D_sref = StmtSRef (Some (BlockStmt ex_D)) (Some ex_loop_sref) 1"

definition ex_dep :: Dependency where
  "ex_dep = \<lparr>dep_src = ex_C_sref, dep_dst = ex_D_sref, dep_kind = kRAW\<rparr>"

definition ex_scope :: BlockScope where
  "ex_scope = \<lparr>src2deps = [ex_C_sref \<mapsto> [ex_dep]], dst2deps = [(ex_D_sref, [ex_dep])],
               buffer_writers = [3 \<mapsto> [ex_C_sref], 5 \<mapsto> [ex_D_sref]],
               stage_pipeline = True\<rparr>"

definition ex_leaf_scope :: BlockScope where
  "ex_leaf_scope = \<lparr>src2deps = Map.empty, dst2deps = [], buffer_writers = Map.empty,
                    stage_pipeline = True\<rparr>"

definition ex_state :: ScheduleState where
  "ex_state = \<lparr>state_mod = IRModule 0,
               block_info =
                 [ex_root_sref \<mapsto> \<lparr>scope = ex_scope, affine_binding = True, region_cover = True\<rparr>,
                  ex_C_sref \<mapsto> \<lparr>scope = ex_leaf_scope, affine_binding = True, region_cover = True\<rparr>,
                  ex_D_sref \<mapsto> \<lparr>scope = ex_leaf_scope, affine_binding = True, region_cover = True\<rparr>],
               stmt2ref = [40 \<mapsto> ex_root_sref, 30 \<mapsto> ex_loop_sref, 20 \<mapsto> ex_C_sref,
                           21 \<mapsto> ex_D_sref]\<rparr>"

text \<open>The chain of a reference and its ancestors; it orders the references of a tree path.\<close>

fun sref_chain :: "stmt_sref \<Rightarrow> stmt_sref list" where
  "sref_chain (StmtSRef s p i) =
     StmtSRef s p i # (case p of None \<Rightarrow> [] | Some q \<Rightarrow> sref_chain q)"


text \<open>Stand-ins for the functions of other files, enough to run the primitives on the
  example. The bound analysis returns, for every dimension, the interval from 0 to the
  number of references from the low end of the path up to the root.\<close>

fun subst_expr :: "(nat \<rightharpoonup> prim_expr) \<Rightarrow> prim_expr \<Rightarrow> prim_expr" where
  "subst_expr m (IntImm t v) = IntImm t v"
| "subst_expr m (VarE v) = (case m (var_addr v) of None \<Rightarrow> VarE v | Some e \<Rightarrow> e)"
| "subst_expr m (Add a b) = Add (subst_expr m a) (subst_expr m b)"
| "subst_expr m (Sub a b) = Sub (subst_expr m a) (subst_expr m b)"
| "subst_expr m (Mul a b) = Mul (subst_expr m a) (subst_expr m b)"
| "subst_expr m (MinE a b) = MinE (subst_expr m a) (subst_expr m b)"
| "subst_expr m (MaxE a b) = MaxE (subst_expr m a) (subst_expr m b)"
| "subst_expr m (BufferLoad b idx) = BufferLoad b (map (subst_expr m) idx)"

definition ex_ext :: Externals where
  "ex_ext =
     \<lparr>CheckStorageScope = (\<lambda>self s. None),
      GetNthAccessBuffer =
        (\<lambda>self blk n ty.
           (let rs = (if ty = kRead then reads blk else writes blk)
            in if 0 \<le> n \<and> nat n < length rs then Inr (br_buffer (rs ! nat n))
               else Inl (ExternalError ''BufferIndexOutOfRangeError''))),
      GetScopeRoot = (\<lambda>self r require_stage_pipeline. Inr ex_root_sref),
      WithScope =
        (\<lambda>b s. Buffer (100 + buf_addr b)
                  (Var (101 + buf_addr b) (name_hint (data b) @ ''_'' @ s) (var_dtype (data b)))
                  (buf_dtype b) (shape b) (strides b) (name b @ ''_'' @ s)),
      FullRegion = (\<lambda>b. BufferRegion b (map (\<lambda>d. Range (int_lit 0) d) (shape b))),
      GetBlockRealize =
        (\<lambda>self r. case sref_stmt r of
                     Some (BlockStmt b) \<Rightarrow> Inr ([VarE ex_i], const_true, b)
                   | _ \<Rightarrow> Inl (CheckFailed ''GetBlockRealize'')),
      GetBindings =
        (\<lambda>rz. map_of (zip (map (\<lambda>iv. var_addr (iv_var iv)) (iter_vars (snd (snd rz))))
                          (fst rz))),
      Substitute = (\<lambda>rs m. map (Mutate_range (subst_expr m)) rs),
      SubstituteExpr = (\<lambda>e m. subst_expr m e),
      FromPoint = (\<lambda>b idx. BufferRegion b (map (\<lambda>e. Range e (int_lit 1)) idx)),
      AnalyzeRegionUpperBound =
        (\<lambda>rgn p low high.
           map (\<lambda>r. IntervalSet (Some (int_lit 0))
                      (Some (int_lit (case low of
                                        None \<Rightarrow> 0
                                      | Some l \<Rightarrow> int (length (sref_chain l))))))
             (region rgn)),
      LoopDomainOfSRefTreePath = (\<lambda>r. Map.empty),
      IsAffineBinding = (\<lambda>rz m. True),
      Replace = (\<lambda>self r new_scope reuse. self)\<rparr>"



text \<open>The region of \<^verbatim>\<open>B\<close> that the stand-in analysis gives for a path starting at \<^verbatim>\<open>low\<close>.\<close>

definition ex_relaxed :: "stmt_sref \<Rightarrow> buffer_region" where
  "ex_relaxed low =
     BufferRegion ex_B
       [CoverRange (IntervalSet (Some (int_lit 0))
                      (Some (int_lit (int (length (sref_chain low))))))
          (Range (int_lit 0) (int_lit 16))]"




text \<open>The plan of \<^verbatim>\<open>cache_read\<close> of \<^verbatim>\<open>B\<close> for the consumer \<^verbatim>\<open>D\<close> and the plan of
  \<^verbatim>\<open>cache_write\<close> of \<^verbatim>\<open>B\<close> for the writer \<^verbatim>\<open>C\<close>: the stage goes into the loop, at position 1.\<close>

definition ex_read_info :: CacheStageInfo where
  "ex_read_info =
     snd (MakeCacheStage ex_region
            \<lparr>read_buffer = ex_B, write_buffer = ex_B_local, alloc = ex_B_local,
             loc_sref = Some ex_loop_sref, loc_pos = 1, cache_stage = None,
             block_reuse = Map.empty, consumer_blocks = []\<rparr>
            ''local'' 200)"


text \<open>An environment, to evaluate the ranges of the instances.\<close>

definition ex_env :: env where
  "ex_env = ((\<lambda>v. 0), (\<lambda>b idx. 0))"

subsection \<open>Notions used to state the properties\<close>

text \<open>The blocks that occur in a statement, at any depth.\<close>

fun blocks_of :: "stmt \<Rightarrow> block list"
  and blocks_of_block :: "block \<Rightarrow> block list" where
  "blocks_of (BufferStore b v idx) = []"
| "blocks_of (Evaluate e) = []"
| "blocks_of (For a v mn ex k b) = blocks_of b"
| "blocks_of (SeqStmt seq) = concat (map blocks_of seq)"
| "blocks_of (BlockRealize vs p blk) = blocks_of_block blk"
| "blocks_of (BlockStmt blk) = blocks_of_block blk"
| "blocks_of_block (Block a ivs rds wrs nm bd ini allocs mbs ann) =
     Block a ivs rds wrs nm bd ini allocs mbs ann
       # (case ini of None \<Rightarrow> [] | Some s \<Rightarrow> blocks_of s) @ blocks_of bd"









section \<open>Properties\<close>

subsection \<open>The cache stage is an elementwise copy\<close>








subsection \<open>Facts about the example\<close>

lemma ex_srefs_distinct:
  "ex_root_sref \<noteq> ex_C_sref" "ex_root_sref \<noteq> ex_D_sref" "ex_C_sref \<noteq> ex_D_sref"
  "ex_C_sref \<noteq> ex_root_sref" "ex_D_sref \<noteq> ex_root_sref" "ex_D_sref \<noteq> ex_C_sref"
  by (simp_all add: ex_root_sref_def ex_C_sref_def ex_D_sref_def)

lemma ex_GetBlockScope: "GetBlockScope ex_state ex_root_sref = Inr ex_scope"
  by (simp add: GetBlockScope_def ex_state_def ex_srefs_distinct)

lemma ex_deps_D: "GetDepsBySrc ex_scope ex_D_sref = []"
  by (simp add: GetDepsBySrc_def ex_scope_def ex_srefs_distinct)

lemma ex_root_stmt: "sref_stmt ex_root_sref = Some (BlockStmt ex_root)"
  by (simp add: ex_root_sref_def)

lemma ex_root_body: "body ex_root = ex_loop"
  by (simp add: ex_root_def)

lemma ex_Detect_D:
  "Detect ex_state ex_D_sref ex_root_sref ex_info =
     Inr (ex_info\<lparr>loc_sref := Some ex_root_sref, loc_pos := 1\<rparr>)"
proof -
  have c: "consumer_blocks ex_info = []" by (simp add: ex_info_def)
  have l: "(case ex_loop of SeqStmt seq \<Rightarrow> int (length seq) | _ \<Rightarrow> 1) = 1"
    by (simp add: ex_loop_def)
  show ?thesis
    by (simp add: Detect_def c ex_GetBlockScope ex_deps_D ex_root_stmt ex_root_body l)
qed







lemma sref_chain_self: "r \<in> set (sref_chain r)"
  by (cases r) simp





lemma ex_Relax:
  "RelaxBufferRegion ex_ext ex_state (BufferRegion ex_B [Range (VarE ex_vi) (int_lit 1)])
     ex_C_sref (Some low) high =
   Inr (BufferRegion ex_B
          [CoverRange (IntervalSet (Some (int_lit 0)) (Some (int_lit (int (length (sref_chain low))))))
             (Range (int_lit 0) (int_lit 16))])"
  by (simp add: RelaxBufferRegion_def ex_ext_def ex_C_sref_def relax_loop.simps ex_B_def Let_def)

subsection \<open>More than one writer\<close>





subsection \<open>The insertion site without related blocks\<close>

text \<open>
  C4, as amended. When no consumer is given and no read-after-write edge leaves the writer,
  \<^verbatim>\<open>Detect\<close> takes the scope block as the site. The position is the length of the body when
  the body is a sequence, and 1 when it is not; inserting the stage there appends it to
  the sequence, or puts it after the single statement of the body.
\<close>

theorem Detect_no_related:
  assumes "consumer_blocks info = []"
    and "GetBlockScope self scope_sref = Inr sc"
    and "filter (\<lambda>def. dep_kind def = kRAW) (GetDepsBySrc sc block_sref) = []"
    and "sref_stmt scope_sref = Some (BlockStmt scope_block)"
  shows "Detect self block_sref scope_sref info =
           Inr (info\<lparr>loc_sref := Some scope_sref,
                     loc_pos := (case body scope_block of
                                   SeqStmt seq \<Rightarrow> int (length seq)
                                 | _ \<Rightarrow> 1)\<rparr>)
       \<and> InsertCacheStage (body scope_block)
            (case body scope_block of SeqStmt seq \<Rightarrow> int (length seq) | _ \<Rightarrow> 1) stage =
           Inr (case body scope_block of
                  SeqStmt seq \<Rightarrow> SeqStmt (seq @ [stage])
                | s \<Rightarrow> SeqStmt [s, stage])"
  using assms
  by (auto simp add: Detect_def InsertCacheStage_def split: stmt.splits)

theorem Detect_no_related_witness:
  "consumer_blocks ex_info = []
   \<and> GetBlockScope ex_state ex_root_sref = Inr ex_scope
   \<and> filter (\<lambda>def. dep_kind def = kRAW) (GetDepsBySrc ex_scope ex_D_sref) = []
   \<and> sref_stmt ex_root_sref = Some (BlockStmt ex_root)
   \<and> Detect ex_state ex_D_sref ex_root_sref ex_info =
       Inr (ex_info\<lparr>loc_sref := Some ex_root_sref, loc_pos := 1\<rparr>)
   \<and> InsertCacheStage (body ex_root) 1 (Evaluate (int_lit 0)) =
       Inr (SeqStmt [ex_loop, Evaluate (int_lit 0)])"
proof -
  have h1: "consumer_blocks ex_info = []" by (simp add: ex_info_def)
  have h3: "filter (\<lambda>def. dep_kind def = kRAW) (GetDepsBySrc ex_scope ex_D_sref) = []"
    by (simp add: ex_deps_D)
  have h4: "sref_stmt ex_root_sref = Some (BlockStmt ex_root)"
    by (simp add: ex_root_sref_def)
  have b: "body ex_root = ex_loop" by (simp add: ex_root_def)
  from Detect_no_related [OF h1 ex_GetBlockScope h3 h4, of "Evaluate (int_lit 0)"]
  show ?thesis
    using h1 ex_GetBlockScope h3 h4 by (simp add: b ex_loop_def)
qed

text \<open>
  C4 as stated has position 0 for a body that is not a sequence. The body of the example
  root is a loop, no edge leaves \<^verbatim>\<open>D\<close>, and the position computed is 1.
\<close>

theorem Detect_no_related_counterexample:
  "sref_stmt ex_root_sref = Some (BlockStmt ex_root)
   \<and> body ex_root = ex_loop
   \<and> consumer_blocks ex_info = []
   \<and> GetDepsBySrc ex_scope ex_D_sref = []
   \<and> map_sum id loc_pos (Detect ex_state ex_D_sref ex_root_sref ex_info) = Inr 1
   \<and> map_sum id loc_pos (Detect ex_state ex_D_sref ex_root_sref ex_info) \<noteq> Inr 0"
  by (simp add: ex_Detect_D ex_deps_D ex_root_stmt ex_root_body) (simp add: ex_info_def)

subsection \<open>Region relaxation\<close>

lemma range_set_CoverRange:
  "range_set \<sigma> (CoverRange s m) = int_set \<sigma> s \<inter> range_set \<sigma> m"
  by (auto simp add: range_set_def CoverRange_def int_set_def Let_def int_lit_def
      split: option.splits)

lemma relax_loop_Inr:
  "relax_loop int_sets shp i acc = Inr rs \<Longrightarrow>
     rs = acc @ map (\<lambda>j. CoverRange (int_sets ! j) (Range (int_lit 0) (shp ! j)))
                  [i..<length int_sets]
     \<and> (i < length int_sets \<longrightarrow> length int_sets \<le> length shp)"
proof (induction int_sets shp i acc rule: relax_loop.induct)
  case (1 int_sets shp i acc)
  show ?case
  proof (cases "i < length int_sets")
    case True
    with "1.prems" have s: "i < length shp"
      by (simp add: relax_loop.simps split: if_splits)
    with True "1.prems" have
      "relax_loop int_sets shp (Suc i)
         (acc @ [CoverRange (int_sets ! i) (Range (int_lit 0) (shp ! i))]) = Inr rs"
      by (simp add: relax_loop.simps)
    from "1.IH" [OF True s this] True s show ?thesis
      by (auto simp add: upt_conv_Cons)
  next
    case False
    with "1.prems" show ?thesis
      by (simp add: relax_loop.simps)
  qed
qed

lemma RelaxBufferRegion_Inr:
  assumes "RelaxBufferRegion ext self buffer_region block_sref low high = Inr R"
  shows "\<exists>realize.
      GetBlockRealize ext self block_sref = Inr realize
    \<and> br_buffer R = br_buffer buffer_region
    \<and> length (region R) = length (region buffer_region)
    \<and> length (region R) \<le> length (shape (br_buffer buffer_region))
    \<and> length (AnalyzeRegionUpperBound ext
         (BufferRegion (br_buffer buffer_region)
            (Substitute ext (region buffer_region) (GetBindings ext realize)))
         (fst (snd realize)) low high) = length (region R)
    \<and> (\<forall>i < length (region R).
         region R ! i =
           CoverRange
             (AnalyzeRegionUpperBound ext
                (BufferRegion (br_buffer buffer_region)
                   (Substitute ext (region buffer_region) (GetBindings ext realize)))
                (fst (snd realize)) low high ! i)
             (Range (int_lit 0) (shape (br_buffer buffer_region) ! i)))"
proof -
  from assms obtain realize where g: "GetBlockRealize ext self block_sref = Inr realize"
    by (auto simp add: RelaxBufferRegion_def split: sum.splits)
  let ?S = "AnalyzeRegionUpperBound ext
         (BufferRegion (br_buffer buffer_region)
            (Substitute ext (region buffer_region) (GetBindings ext realize)))
         (fst (snd realize)) low high"
  from assms g obtain rs where
    len: "length (region buffer_region) = length ?S"
    and rl: "relax_loop ?S (shape (br_buffer buffer_region)) 0 [] = Inr rs"
    and R: "R = BufferRegion (br_buffer buffer_region) rs"
    by (auto simp add: RelaxBufferRegion_def Let_def split: sum.splits if_splits)
  from relax_loop_Inr [OF rl] have
    rs: "rs = map (\<lambda>j. CoverRange (?S ! j)
                     (Range (int_lit 0) (shape (br_buffer buffer_region) ! j)))
               [0..<length ?S]"
    and le: "0 < length ?S \<longrightarrow> length ?S \<le> length (shape (br_buffer buffer_region))"
    by simp_all
  have a: "br_buffer R = br_buffer buffer_region" by (simp add: R)
  have b: "length (region R) = length (region buffer_region)" by (simp add: R rs len)
  have c: "length (region R) \<le> length (shape (br_buffer buffer_region))"
    using le by (cases "length ?S") (simp_all add: R rs)
  have d: "length ?S = length (region R)" by (simp add: R rs)
  have e: "\<forall>i < length (region R).
         region R ! i =
           CoverRange (?S ! i) (Range (int_lit 0) (shape (br_buffer buffer_region) ! i))"
    by (simp add: R rs)
  from g a b c d e show ?thesis by blast
qed

lemma range_set_zero: "range_set \<sigma> (Range (int_lit 0) e) = {0 ..< eval \<sigma> e}"
  by (simp add: range_set_def int_lit_def)

text \<open>
  C5. The region returned by \<^verbatim>\<open>RelaxBufferRegion\<close> is a region of the same buffer with as
  many ranges as the region given, and in every dimension \<^verbatim>\<open>i\<close> the range lies within
  \<^verbatim>\<open>[0, shape[i])\<close>, whatever the values of the variables.
\<close>

theorem RelaxBufferRegion_clipped:
  assumes "RelaxBufferRegion ext self buffer_region block_sref low high = Inr R"
    and "i < length (region R)"
  shows "br_buffer R = br_buffer buffer_region
       \<and> length (region R) = length (region buffer_region)
       \<and> i < length (shape (br_buffer R))
       \<and> range_set \<sigma> (region R ! i) \<subseteq> {0 ..< eval \<sigma> (shape (br_buffer R) ! i)}"
proof -
  from RelaxBufferRegion_Inr [OF assms(1)] obtain realize where
    a: "br_buffer R = br_buffer buffer_region"
    and b: "length (region R) = length (region buffer_region)"
    and c: "length (region R) \<le> length (shape (br_buffer buffer_region))"
    and e: "\<forall>i < length (region R).
         region R ! i =
           CoverRange
             (AnalyzeRegionUpperBound ext
                (BufferRegion (br_buffer buffer_region)
                   (Substitute ext (region buffer_region) (GetBindings ext realize)))
                (fst (snd realize)) low high ! i)
             (Range (int_lit 0) (shape (br_buffer buffer_region) ! i))"
    by blast
  from e assms(2) have
    "range_set \<sigma> (region R ! i) \<subseteq> range_set \<sigma> (Range (int_lit 0) (shape (br_buffer R) ! i))"
    by (simp add: range_set_CoverRange a)
  then have "range_set \<sigma> (region R ! i) \<subseteq> {0 ..< eval \<sigma> (shape (br_buffer R) ! i)}"
    by (simp only: range_set_zero)
  with a b c assms(2) show ?thesis by simp
qed

theorem RelaxBufferRegion_clipped_witness:
  "RelaxBufferRegion ex_ext ex_state (BufferRegion ex_B [Range (VarE ex_vi) (int_lit 1)])
     ex_C_sref (Some ex_loop_sref) (Some ex_root_sref) = Inr (ex_relaxed ex_loop_sref)
   \<and> (0::nat) < length (region (ex_relaxed ex_loop_sref))
   \<and> range_set ex_env (region (ex_relaxed ex_loop_sref) ! 0) \<subseteq> {0 ..< 16}"
proof -
  have r: "RelaxBufferRegion ex_ext ex_state (BufferRegion ex_B [Range (VarE ex_vi) (int_lit 1)])
     ex_C_sref (Some ex_loop_sref) (Some ex_root_sref) = Inr (ex_relaxed ex_loop_sref)"
    by (simp add: ex_Relax ex_relaxed_def)
  have n: "(0::nat) < length (region (ex_relaxed ex_loop_sref))"
    by (simp add: ex_relaxed_def)
  have s: "eval ex_env (shape (br_buffer (ex_relaxed ex_loop_sref)) ! 0) = 16"
    by (simp add: ex_relaxed_def ex_B_def int_lit_def)
  from RelaxBufferRegion_clipped [OF r n, of ex_env] r n show ?thesis
    by (simp add: s)
qed




subsection \<open>Reindex: iterators that the indices do not cover\<close>











subsection \<open>cache\_read of an input buffer\<close>
























subsection \<open>cache\_read leaves the producer alone\<close>

lemma is_consumer_loop_eq:
  "srefs_to_blocks cs = Inr cbs \<Longrightarrow>
     is_consumer_loop blk cs c0 = Inr (c0 \<or> block_addr blk \<in> block_addr ` set cbs)"
proof (induction cs arbitrary: c0 cbs)
  case Nil
  then show ?case by simp
next
  case (Cons r cs)
  then show ?case
    by (auto split: sum.splits)
qed

lemma CacheReadRewriter_producer:
  assumes prod: "GetBufferRegionFromBuffer (writes p) (read_buffer info) = Inr (Some r)"
    and notroot: "\<not> is_block_of p sc"
    and cons: "srefs_to_blocks (consumer_blocks info) = Inr cbs"
  shows "CacheReadRewriter_VisitBlock sc info p st =
           Inr (p, (consumer_blocks info = [] \<or> block_addr p \<in> block_addr ` set cbs, snd st))"
proof (cases p)
  case (Block a ivs rds wrs nm bd ini allocs mbs ann)
  with prod notroot is_consumer_loop_eq [OF cons, of p "consumer_blocks info = []"]
  show ?thesis
    by (simp add: Let_def)
qed

lemma InsertCacheStage_blocks:
  "InsertCacheStage s pos stage = Inr s' \<Longrightarrow> set (blocks_of s) \<subseteq> set (blocks_of s')"
proof (cases s)
  case (SeqStmt seq)
  assume a: "InsertCacheStage s pos stage = Inr s'"
  with SeqStmt have s': "s' = SeqStmt (take (nat pos) seq @ stage # drop (nat pos) seq)"
    by (simp add: InsertCacheStage_def split: if_splits)
  have "set seq \<subseteq> set (take (nat pos) seq @ stage # drop (nat pos) seq)"
    using set_take_subset set_drop_subset
    by (metis Un_insert_right append_take_drop_id set_append set_simps(2) subset_insertI)
  then show ?thesis
    unfolding SeqStmt s' by auto
qed (auto simp add: InsertCacheStage_def split: if_splits)

lemma CacheReadRewriter_finish_blocks:
  assumes "CacheReadRewriter_finish sc info blk c stmt0 = Inr stmt1"
  shows "init stmt1 = init stmt0 \<and> set (blocks_of (body stmt0)) \<subseteq> set (blocks_of (body stmt1))"
  using assms
  by (auto simp add: CacheReadRewriter_finish_def InsertStage_def
      dest!: InsertCacheStage_blocks split: sum.splits if_splits option.splits)

lemma CacheReadRewriter_VisitBlock_kept:
  assumes v: "CacheReadRewriter_VisitBlock sc info (Block a ivs rds wrs nm bd ini allocs mbs ann) st
             = Inr (b', st')"
    and p: "\<not> is_block_of (Block a ivs rds wrs nm bd ini allocs mbs ann) sc"
           "GetBufferRegionFromBuffer wrs (read_buffer info) = Inr (Some r)"
  shows "b' = Block a ivs rds wrs nm bd ini allocs mbs ann"
  using v p by (simp add: Let_def split: sum.splits)

lemma CacheReadRewriter_VisitBlock_descend:
  assumes v: "CacheReadRewriter_VisitBlock sc info (Block a ivs rds wrs nm bd ini allocs mbs ann) st
             = Inr (b', st')"
    and np: "is_block_of (Block a ivs rds wrs nm bd ini allocs mbs ann) sc
             \<or> (\<forall>r. GetBufferRegionFromBuffer wrs (read_buffer info) \<noteq> Inr (Some r))"
  shows "\<exists>c st1 bd1 st2 stmt0.
           (case ini of
              None \<Rightarrow> init stmt0 = None
            | Some s \<Rightarrow> (\<exists>s1 st0. CacheReadRewriter_VisitStmt sc info s st0 = Inr (s1, st1)
                            \<and> init stmt0 = Some s1))
         \<and> CacheReadRewriter_VisitStmt sc info bd st1 = Inr (bd1, st2)
         \<and> body stmt0 = bd1
         \<and> CacheReadRewriter_finish sc info (Block a ivs rds wrs nm bd ini allocs mbs ann)
              c stmt0 = Inr b'"
proof -
  let ?blk = "Block a ivs rds wrs nm bd ini allocs mbs ann"
  from v obtain c where
    c: "is_consumer_loop ?blk (consumer_blocks info) (consumer_blocks info = []) = Inr c"
    by (auto simp add: Let_def split: sum.splits)
  from v c np have nprod:
    "(if \<not> is_block_of ?blk sc
      then (case GetBufferRegionFromBuffer wrs (read_buffer info) of
              Inl e \<Rightarrow> Inl e | Inr r \<Rightarrow> Inr (r \<noteq> None))
      else Inr False) = Inr False"
    by (auto simp add: Let_def split: sum.splits if_splits)
  let ?f = "CacheReadRewriter_VisitExpr info c"
  from v c nprod obtain ini1 st1 where
    i: "(case ini of
           None \<Rightarrow> Inr (None, (c, snd st))
         | Some s \<Rightarrow>
             (case CacheReadRewriter_VisitStmt sc info s (c, snd st) of
                Inl e \<Rightarrow> Inl e
              | Inr (s1, st1) \<Rightarrow> Inr (Some s1, st1))) = Inr (ini1, st1)"
    by (simp add: Let_def split: sum.splits prod.splits)
  with v c nprod obtain bd1 st2 where
    b: "CacheReadRewriter_VisitStmt sc info bd st1 = Inr (bd1, st2)"
    by (simp add: Let_def split: sum.splits prod.splits)
  let ?stmt0 = "Block a (map (Mutate_iter_var ?f) ivs) (map (Mutate_buffer_region ?f) rds)
                  (map (Mutate_buffer_region ?f) wrs) nm bd1 ini1 allocs
                  (map (Mutate_match_buffer ?f) mbs) ann"
  from v c nprod i b have f: "CacheReadRewriter_finish sc info ?blk c ?stmt0 = Inr b'"
    by (simp add: Let_def split: sum.splits prod.splits)
  from i have "(case ini of
              None \<Rightarrow> init ?stmt0 = None
            | Some s \<Rightarrow> (\<exists>s1 st0. CacheReadRewriter_VisitStmt sc info s st0 = Inr (s1, st1)
                            \<and> init ?stmt0 = Some s1))"
    by (auto split: option.splits sum.splits prod.splits)
  with b f show ?thesis
    by (intro exI [of _ c] exI [of _ st1] exI [of _ bd1] exI [of _ st2] exI [of _ ?stmt0]) simp
qed


lemma InsertStage_blocks:
  "InsertStage info s = Inr s' \<Longrightarrow> set (blocks_of s) \<subseteq> set (blocks_of s')"
  by (auto simp add: InsertStage_def dest!: InsertCacheStage_blocks split: option.splits)

lemma CacheReadRewriter_VisitSeq_blocks:
  assumes "\<And>x st x' st'. x \<in> set xs \<Longrightarrow> CacheReadRewriter_VisitStmt sc info x st = Inr (x', st')
             \<Longrightarrow> p \<in> set (blocks_of x) \<Longrightarrow> p \<in> set (blocks_of x')"
    and "CacheReadRewriter_VisitSeq sc info xs st = Inr (xs', st')"
    and "p \<in> set (concat (map blocks_of xs))"
  shows "p \<in> set (concat (map blocks_of xs'))"
  using assms
proof (induction xs arbitrary: st xs' st')
  case Nil
  then show ?case by simp
next
  case (Cons x xs)
  from Cons.prems(2) obtain x1 st1 xs1 where
    x: "CacheReadRewriter_VisitStmt sc info x st = Inr (x1, st1)"
    and xs: "CacheReadRewriter_VisitSeq sc info xs st1 = Inr (xs1, st')"
    and r: "xs' = x1 # xs1"
    by (auto split: sum.splits prod.splits)
  from Cons.prems(3) consider "p \<in> set (blocks_of x)" | "p \<in> set (concat (map blocks_of xs))"
    by auto
  then show ?case
  proof cases
    case 1
    with Cons.prems(1) [OF _ x] r show ?thesis by simp
  next
    case 2
    have "p \<in> set (concat (map blocks_of xs1))"
      by (rule Cons.IH [OF _ xs 2]) (rule Cons.prems(1), simp_all)
    with r show ?thesis by simp
  qed
qed

lemma CacheReadRewriter_keeps_producer:
  assumes prod: "GetBufferRegionFromBuffer (writes p) (read_buffer info) = Inr (Some r)"
    and notroot: "\<not> is_block_of p sc"
  shows "CacheReadRewriter_VisitStmt sc info s st = Inr (s', st') \<Longrightarrow> p \<in> set (blocks_of s)
           \<Longrightarrow> p \<in> set (blocks_of s')"
    and "CacheReadRewriter_VisitBlock sc info b st = Inr (b', st')
           \<Longrightarrow> p \<in> set (blocks_of_block b) \<Longrightarrow> p \<in> set (blocks_of_block b')"
proof (induction s and b arbitrary: st s' st' and st b' st')
  case (BufferStore x1 x2 x3)
  then show ?case by simp
next
  case (Evaluate x)
  then show ?case by simp
next
  case (For a v mn ex k b)
  from For.prems(1) obtain b1 st1 where
    b: "CacheReadRewriter_VisitStmt sc info b st = Inr (b1, st1)"
    by (auto simp add: Let_def split: sum.splits prod.splits)
  from For.IH [OF b] For.prems(2) have p1: "p \<in> set (blocks_of b1)" by simp
  from For.prems(1) b have
    "(\<exists>b2. InsertStage info b1 = Inr b2 \<and> s' = For a v (CacheReadRewriter_VisitExpr info (fst st) mn)
                (CacheReadRewriter_VisitExpr info (fst st) ex) k b2)
     \<or> s' = For a v (CacheReadRewriter_VisitExpr info (fst st) mn)
                (CacheReadRewriter_VisitExpr info (fst st) ex) k b1"
    by (auto simp add: Let_def split: sum.splits prod.splits if_splits)
  with p1 show ?case
    by (auto dest!: InsertStage_blocks)
next
  case (SeqStmt xs)
  from SeqStmt.prems(1) obtain xs1 where
    v: "CacheReadRewriter_VisitSeq sc info xs st = Inr (xs1, st')" and r: "s' = SeqStmt xs1"
    by (auto split: sum.splits prod.splits)
  have "p \<in> set (concat (map blocks_of xs1))"
    by (rule CacheReadRewriter_VisitSeq_blocks [OF _ v]) (use SeqStmt in auto)
  with r show ?case by simp
next
  case (BlockRealize vs pr blk)
  from BlockRealize.prems(1) obtain blk1 where
    v: "CacheReadRewriter_VisitBlock sc info blk st = Inr (blk1, st')"
    and r: "s' = BlockRealize (map (CacheReadRewriter_VisitExpr info (fst st)) vs)
                  (CacheReadRewriter_VisitExpr info (fst st) pr) blk1"
    by (auto simp add: Let_def split: sum.splits prod.splits)
  from BlockRealize.IH [OF v] BlockRealize.prems(2) r show ?case by simp
next
  case (BlockStmt blk)
  from BlockStmt.prems(1) obtain blk1 where
    v: "CacheReadRewriter_VisitBlock sc info blk st = Inr (blk1, st')"
    and r: "s' = BlockStmt blk1"
    by (auto split: sum.splits prod.splits)
  from BlockStmt.IH [OF v] BlockStmt.prems(2) r show ?case by simp
next
  case (Block a ivs rds wrs nm bd ini allocs mbs ann)
  let ?blk = "Block a ivs rds wrs nm bd ini allocs mbs ann"
  show ?case
  proof (cases "\<not> is_block_of ?blk sc
                \<and> (\<exists>r. GetBufferRegionFromBuffer wrs (read_buffer info) = Inr (Some r))")
    case True
    then obtain r' where "\<not> is_block_of ?blk sc"
      "GetBufferRegionFromBuffer wrs (read_buffer info) = Inr (Some r')" by blast
    from CacheReadRewriter_VisitBlock_kept [OF Block.prems(1) this] Block.prems(2)
    show ?thesis by simp
  next
    case False
    then have np: "is_block_of ?blk sc
             \<or> (\<forall>r. GetBufferRegionFromBuffer wrs (read_buffer info) \<noteq> Inr (Some r))"
      by blast
    from False prod notroot have ne: "p \<noteq> ?blk" by auto
    from CacheReadRewriter_VisitBlock_descend [OF Block.prems(1) np]
    obtain c st1 bd1 st2 stmt0 where
      i: "(case ini of
              None \<Rightarrow> init stmt0 = None
            | Some s \<Rightarrow> (\<exists>s1 st0. CacheReadRewriter_VisitStmt sc info s st0 = Inr (s1, st1)
                            \<and> init stmt0 = Some s1))"
      and b: "CacheReadRewriter_VisitStmt sc info bd st1 = Inr (bd1, st2)"
      and bd: "body stmt0 = bd1"
      and f: "CacheReadRewriter_finish sc info ?blk c stmt0 = Inr b'"
      by blast
    from CacheReadRewriter_finish_blocks [OF f] have
      fi: "init b' = init stmt0" and fb: "set (blocks_of (body stmt0)) \<subseteq> set (blocks_of (body b'))"
      by simp_all
    from Block.prems(2) ne consider
      (ini) s where "ini = Some s" "p \<in> set (blocks_of s)" | (bd) "p \<in> set (blocks_of bd)"
      by (auto split: option.splits)
    then show ?thesis
    proof cases
      case ini
      with i obtain s1 st0 where
        "CacheReadRewriter_VisitStmt sc info s st0 = Inr (s1, st1)" and "init stmt0 = Some s1"
        by auto
      with Block.IH(2) [of s st0 s1 st1] ini fi have "init b' = Some s1" "p \<in> set (blocks_of s1)"
        by simp_all
      then show ?thesis by (cases b') simp
    next
      case bd
      from Block.IH(1) [OF b bd] have "p \<in> set (blocks_of bd1)" .
      with fb \<open>body stmt0 = bd1\<close> have "p \<in> set (blocks_of (body b'))" by auto
      then show ?thesis by (cases b') simp
    qed
  qed
qed


lemma ex_read_info_simps:
  "read_buffer ex_read_info = ex_B" "write_buffer ex_read_info = ex_B_local"
  "consumer_blocks ex_read_info = []" "loc_sref ex_read_info = Some ex_loop_sref"
  "loc_pos ex_read_info = 1" "block_reuse ex_read_info = Map.empty"
  by (simp_all add: ex_read_info_def MakeCacheStage_def Let_def split: prod.splits)

lemma ex_C_not_root: "\<not> is_block_of ex_C ex_root_sref"
  by (simp add: is_block_of_def sref_addr_def ex_root_sref_def ex_C_def ex_root_def)

lemma ex_C_writes_B:
  "GetBufferRegionFromBuffer (writes ex_C) ex_B =
     Inr (Some (BufferRegion ex_B [Range (VarE ex_vi) (int_lit 1)]))"
  by (simp add: GetBufferRegionFromBuffer_def ex_C_def same_as_def)

lemma ex_read_rewrite_ok:
  "(case CacheReadRewriter_Rewrite ex_root_sref ex_read_info of Inl e \<Rightarrow> False | Inr x \<Rightarrow> True)"
  by code_simp

lemma ex_C_in_root: "ex_C \<in> set (blocks_of (BlockStmt ex_root))"
  by (simp add: ex_root_def ex_loop_def) (simp add: ex_C_def)

text \<open>
  C6. A block other than the scope block that declares a write region of the read buffer
  is the producer. The block visit of the \<^verbatim>\<open>cache_read\<close> rewriter returns it as it is,
  without visiting its body and without an entry in \<^verbatim>\<open>block_reuse\<close>; and when the rewrite
  of the scope returns, every such block of the scope occurs unchanged in the new scope.
  The given consumers are live block references.
\<close>

theorem CacheRead_producer_untouched:
  assumes prod: "GetBufferRegionFromBuffer (writes p) (read_buffer info) = Inr (Some r)"
    and notroot: "\<not> is_block_of p scope_sref"
    and cons: "srefs_to_blocks (consumer_blocks info) = Inr cbs"
  shows "CacheReadRewriter_VisitBlock scope_sref info p st =
           Inr (p, (consumer_blocks info = [] \<or> block_addr p \<in> block_addr ` set cbs, snd st))
       \<and> (\<forall>root new_scope info'.
             sref_stmt scope_sref = Some root
           \<and> CacheReadRewriter_Rewrite scope_sref info = Inr (new_scope, info')
           \<and> p \<in> set (blocks_of root)
           \<longrightarrow> p \<in> set (blocks_of new_scope))"
proof -
  have "p \<in> set (blocks_of new_scope)"
    if "sref_stmt scope_sref = Some root"
      and "CacheReadRewriter_Rewrite scope_sref info = Inr (new_scope, info')"
      and "p \<in> set (blocks_of root)" for root new_scope info'
  proof -
    from that(1,2) obtain st' where
      "CacheReadRewriter_VisitStmt scope_sref info root (False, block_reuse info) =
         Inr (new_scope, st')"
      by (auto simp add: CacheReadRewriter_Rewrite_def split: sum.splits prod.splits)
    from CacheReadRewriter_keeps_producer(1) [OF prod notroot this that(3)] show ?thesis .
  qed
  with CacheReadRewriter_producer [OF prod notroot cons, of st] show ?thesis
    by blast
qed

theorem CacheRead_producer_untouched_witness:
  "GetBufferRegionFromBuffer (writes ex_C) (read_buffer ex_read_info) =
     Inr (Some (BufferRegion ex_B [Range (VarE ex_vi) (int_lit 1)]))
   \<and> \<not> is_block_of ex_C ex_root_sref
   \<and> srefs_to_blocks (consumer_blocks ex_read_info) = Inr []
   \<and> CacheReadRewriter_VisitBlock ex_root_sref ex_read_info ex_C (False, Map.empty) =
       Inr (ex_C, (True, Map.empty))
   \<and> sref_stmt ex_root_sref = Some (BlockStmt ex_root)
   \<and> ex_C \<in> set (blocks_of (BlockStmt ex_root))
   \<and> (\<exists>new_scope info'.
         CacheReadRewriter_Rewrite ex_root_sref ex_read_info = Inr (new_scope, info')
       \<and> ex_C \<in> set (blocks_of new_scope))"
proof -
  have prod: "GetBufferRegionFromBuffer (writes ex_C) (read_buffer ex_read_info) =
     Inr (Some (BufferRegion ex_B [Range (VarE ex_vi) (int_lit 1)]))"
    by (simp add: ex_read_info_simps ex_C_writes_B)
  have cons: "srefs_to_blocks (consumer_blocks ex_read_info) = Inr []"
    by (simp add: ex_read_info_simps)
  from ex_read_rewrite_ok obtain new_scope info' where
    rw: "CacheReadRewriter_Rewrite ex_root_sref ex_read_info = Inr (new_scope, info')"
    by (cases "CacheReadRewriter_Rewrite ex_root_sref ex_read_info") auto
  from CacheRead_producer_untouched [OF prod ex_C_not_root cons, of "(False, Map.empty)"]
  have a: "CacheReadRewriter_VisitBlock ex_root_sref ex_read_info ex_C (False, Map.empty) =
       Inr (ex_C, (True, Map.empty))"
    and b: "ex_C \<in> set (blocks_of new_scope)"
    using rw ex_root_stmt ex_C_in_root by (simp_all add: ex_read_info_simps)
  from prod ex_C_not_root cons a ex_root_stmt ex_C_in_root rw b show ?thesis by blast
qed

subsection \<open>cache\_write retargets the writer only\<close>

























end
